theory Spec2Isabelle
  imports Complex_Main "HOL-Library.Sublist"
begin

section \<open>Python floats\<close>

text \<open>
  Every amount, quantity and rate of \<^verbatim>\<open>invoice.py\<close> is a Python \<^verbatim>\<open>float\<close>, an IEEE 754
  binary64 number. A finite float is modelled by the rational number it denotes.
  \<open>fl\<close> rounds a rational to the nearest binary64 value, ties to the even significand
  (53 bits, gradual underflow below \<open>2^-1022\<close>); every arithmetic operation of the
  source is the exact operation followed by \<open>fl\<close>. Infinities and NaN (results beyond
  \<open>2^1024\<close>) are outside the model.
\<close>

type_synonym pyfloat = rat

fun bit_length :: "nat \<Rightarrow> nat" where
  "bit_length n = (if n = 0 then 0 else Suc (bit_length (n div 2)))"

declare bit_length.simps [simp del]

definition pow2 :: "int \<Rightarrow> rat" where
  "pow2 k = (if 0 \<le> k then 2 ^ nat k else 1 / 2 ^ nat (- k))"

definition round_half_even :: "rat \<Rightarrow> int" where
  "round_half_even q =
     (let f = \<lfloor>q\<rfloor>; d = q - of_int f
      in if d < 1 / 2 then f
         else if 1 / 2 < d then f + 1
         else if even f then f else f + 1)"

text \<open>\<open>ilog2 q\<close> is the binary exponent of a non-zero \<open>q\<close>: \<open>2^e \<le> |q| < 2^(e+1)\<close>.\<close>

definition ilog2 :: "rat \<Rightarrow> int" where
  "ilog2 q =
     (if 1 \<le> \<bar>q\<bar> then int (bit_length (nat \<lfloor>\<bar>q\<bar>\<rfloor>)) - 1
      else - int (bit_length (nat (\<lceil>1 / \<bar>q\<bar>\<rceil> - 1))))"

definition fl :: "rat \<Rightarrow> pyfloat" where
  "fl q =
     (if q = 0 then 0
      else let e = max (ilog2 q) (- 1022); u = pow2 (e - 52)
           in of_int (round_half_even (q / u)) * u)"

definition fadd :: "pyfloat \<Rightarrow> pyfloat \<Rightarrow> pyfloat" where
  "fadd a b = fl (a + b)"

definition fsub :: "pyfloat \<Rightarrow> pyfloat \<Rightarrow> pyfloat" where
  "fsub a b = fl (a - b)"

definition fmul :: "pyfloat \<Rightarrow> pyfloat \<Rightarrow> pyfloat" where
  "fmul a b = fl (a * b)"


text \<open>An \<^verbatim>\<open>int\<close> operand of a float operation is converted to the nearest float first.\<close>

definition float_of_int :: "int \<Rightarrow> pyfloat" where
  "float_of_int n = fl (of_int n)"

text \<open>
  \<^verbatim>\<open>round(x, ndigits)\<close> on a float: CPython rounds the exact value of \<open>x\<close> to
  \<open>ndigits\<close> decimal places, half to even, and returns the float nearest to that decimal.
\<close>

definition py_round :: "pyfloat \<Rightarrow> nat \<Rightarrow> pyfloat" where
  "py_round x ndigits = fl (of_int (round_half_even (x * 10 ^ ndigits)) / 10 ^ ndigits)"

text \<open>
  \<^verbatim>\<open>sum(...)\<close> starts from the int \<open>0\<close> and adds the floats from left to right.
  (CPython 3.12 and later compensate the rounding errors of a float sum, which can change
  the last bit of a long sum; no statement below depends on that bit.)
\<close>

definition py_sum :: "pyfloat list \<Rightarrow> pyfloat" where
  "py_sum xs = foldl fadd 0 xs"

section \<open>Data model\<close>

text \<open>
  \<^verbatim>\<open>due_date\<close>, \<^verbatim>\<open>created_at\<close> and \<^verbatim>\<open>paid_at\<close> are stored as ISO-8601 text
  (\<^verbatim>\<open>date.isoformat()\<close>, \<^verbatim>\<open>datetime.isoformat()\<close>). That text is fixed-width and
  zero-padded for the years 1 to 9999, so the text comparisons of the SQL statements are
  the comparisons of the dates themselves. The model keeps the date: a \<open>date\<close> is the
  proleptic Gregorian ordinal (\<^verbatim>\<open>date.toordinal()\<close>, 1 for 0001-01-01), a \<open>datetime\<close>
  the number of microseconds since 0001-01-01T00:00:00.
\<close>

type_synonym date = int
type_synonym datetime = int

record LineItem =
  description :: string
  qty :: pyfloat
  unit_price :: pyfloat

text \<open>
  A row of the table \<^verbatim>\<open>invoices\<close>. The columns \<^verbatim>\<open>id\<close> (the primary key) and
  \<^verbatim>\<open>notes\<close> are the fields \<open>inv_id\<close> and \<open>inv_notes\<close>.
\<close>

record invoice_row =
  inv_id :: string
  number :: string
  client_name :: string
  client_email :: string
  tax_rate :: pyfloat
  discount :: pyfloat
  status :: string
  due_date :: date
  created_at :: datetime
  paid_at :: "datetime option"
  payment_method :: "string option"
  inv_notes :: string
  currency :: string

text \<open>The dataclass \<^verbatim>\<open>Invoice\<close>: the columns of its row and the line items.\<close>

record Invoice = invoice_row +
  line_items :: "LineItem list"

subsection \<open>Monetary calculator\<close>

definition li_total :: "LineItem \<Rightarrow> pyfloat" where
  "li_total li = py_round (fmul (qty li) (unit_price li)) 2"

definition subtotal :: "Invoice \<Rightarrow> pyfloat" where
  "subtotal iv = py_round (py_sum (map li_total (line_items iv))) 2"

definition discount_amount :: "Invoice \<Rightarrow> pyfloat" where
  "discount_amount iv = py_round (fmul (subtotal iv) (discount iv)) 2"

definition taxable_amount :: "Invoice \<Rightarrow> pyfloat" where
  "taxable_amount iv = py_round (fsub (subtotal iv) (discount_amount iv)) 2"

definition tax_amount :: "Invoice \<Rightarrow> pyfloat" where
  "tax_amount iv = py_round (fmul (taxable_amount iv) (tax_rate iv)) 2"

definition total :: "Invoice \<Rightarrow> pyfloat" where
  "total iv = py_round (fadd (taxable_amount iv) (tax_amount iv)) 2"

section \<open>The store\<close>

text \<open>
  The SQLite database: the rows of the two tables, in insertion order. Every operation
  of the source opens a connection, runs inside one transaction (\<^verbatim>\<open>with get_db(path) as conn\<close>
  commits on success and rolls back on an exception) and closes it, so an operation is a
  function from the store to a result and the store after it; an operation that raises
  returns the store it was given.
\<close>

record line_item_row =
  li_id :: string
  invoice_id :: string
  li_item :: LineItem
  position :: nat

record db =
  tbl_invoices :: "invoice_row list"
  tbl_line_items :: "line_item_row list"

text \<open>\<^verbatim>\<open>init_db\<close> on a new file: both tables exist and are empty.\<close>

definition init_db :: db where
  "init_db = \<lparr>tbl_invoices = [], tbl_line_items = []\<rparr>"

text \<open>
  The exceptions of the source. It raises \<^verbatim>\<open>ValueError\<close> for a rejected argument and for
  a refused status change (the specification's ValidationError and
  InvalidTransitionError; the message tells them apart) and \<^verbatim>\<open>KeyError\<close> for an unknown
  id (NotFoundError). \<^verbatim>\<open>IntegrityError\<close> is what SQLite raises on a violated
  \<^verbatim>\<open>PRIMARY KEY\<close> or \<^verbatim>\<open>UNIQUE\<close> constraint, \<^verbatim>\<open>OverflowError\<close> what
  \<^verbatim>\<open>datetime\<close> raises on a date beyond the year 9999.
\<close>

datatype error =
    ValueError string
  | KeyError string
  | IntegrityError string
  | OverflowError string

type_synonym 'a result = "error + 'a"

subsection \<open>SQL \<^verbatim>\<open>LIKE\<close>\<close>

text \<open>
  SQLite's \<^verbatim>\<open>LIKE\<close> operator with its default settings: \<^verbatim>\<open>%\<close> in the pattern matches
  any sequence of characters, \<^verbatim>\<open>_\<close> any single character, and every other character
  matches itself, upper and lower case ASCII letters being equal. The first argument is
  the pattern. A string is its bytes: beyond ASCII, where SQLite's \<^verbatim>\<open>_\<close> matches one
  UTF-8 character, the \<^verbatim>\<open>_\<close> of the model matches one byte.
\<close>

definition ascii_lower :: "char \<Rightarrow> char" where
  "ascii_lower c =
     (let n = (of_char c :: nat) in if 65 \<le> n \<and> n \<le> 90 then char_of (n + 32) else c)"

fun like :: "string \<Rightarrow> string \<Rightarrow> bool" where
  "like [] s = (s = [])"
| "like (p # ps) [] = (p = CHR ''%'' \<and> like ps [])"
| "like (p # ps) (c # t) =
     (if p = CHR ''%'' then like ps (c # t) \<or> like (p # ps) t
      else (p = CHR ''_'' \<or> ascii_lower p = ascii_lower c) \<and> like ps t)"

subsection \<open>Invoice numbers\<close>

text \<open>\<^verbatim>\<open>str(n)\<close> for a natural number, and the format \<^verbatim>\<open>{seq:05d}\<close>.\<close>

fun str_nat :: "nat \<Rightarrow> string" where
  "str_nat n =
     (if n < 10 then [char_of (48 + n)] else str_nat (n div 10) @ [char_of (48 + n mod 10)])"

declare str_nat.simps [simp del]

definition pad5 :: "string \<Rightarrow> string" where
  "pad5 s = replicate (5 - length s) CHR ''0'' @ s"

text \<open>\<open>year\<close> is \<^verbatim>\<open>datetime.utcnow().year\<close>, read inside \<^verbatim>\<open>_invoice_number\<close>.\<close>

definition invoice_number :: "nat \<Rightarrow> db \<Rightarrow> string" where
  "invoice_number year d =
     (let cnt = length (filter (\<lambda>r. like (''INV-'' @ str_nat year @ ''-%'') (number r))
                          (tbl_invoices d));
          seq = cnt + 1
      in ''INV-'' @ str_nat year @ ''-'' @ pad5 (str_nat seq))"

subsection \<open>Dates\<close>

definition us_per_day :: int where
  "us_per_day = 86400000000"

text \<open>The ordinal of 9999-12-31, \<^verbatim>\<open>date.max.toordinal()\<close>.\<close>

definition max_ordinal :: int where
  "max_ordinal = 3652059"

text \<open>\<^verbatim>\<open>(now + timedelta(days=due_days)).date()\<close>.\<close>

definition add_days :: "datetime \<Rightarrow> int \<Rightarrow> date result" where
  "add_days now due_days =
     (if 999999999 < \<bar>due_days\<bar> then Inl (OverflowError ''days must have magnitude <= 999999999'')
      else let t = now + due_days * us_per_day
           in if t < 0 \<or> max_ordinal * us_per_day \<le> t
              then Inl (OverflowError ''date value out of range'')
              else Inr (t div us_per_day + 1))"

section \<open>Core invoice operations\<close>

definition row_to_invoice :: "invoice_row \<Rightarrow> LineItem list \<Rightarrow> Invoice" where
  "row_to_invoice row items =
     \<lparr>inv_id = inv_id row, number = number row,
      client_name = client_name row, client_email = client_email row,
      tax_rate = tax_rate row, discount = discount row,
      status = status row, due_date = due_date row, created_at = created_at row,
      paid_at = paid_at row, payment_method = payment_method row,
      inv_notes = inv_notes row, currency = currency row, line_items = items\<rparr>"

definition not_found :: "string \<Rightarrow> error" where
  "not_found i = KeyError (''Invoice '' @ i @ '' not found'')"

definition select_invoice :: "string \<Rightarrow> db \<Rightarrow> invoice_row option" where
  "select_invoice i d = find (\<lambda>r. inv_id r = i) (tbl_invoices d)"

definition get_invoice :: "string \<Rightarrow> db \<Rightarrow> Invoice result" where
  "get_invoice i d =
     (case select_invoice i d of
        None \<Rightarrow> Inl (not_found i)
      | Some row \<Rightarrow>
          let li_rows = sort_key position (filter (\<lambda>r. invoice_id r = i) (tbl_line_items d));
              items = map li_item li_rows
          in Inr (row_to_invoice row items))"

text \<open>The two \<^verbatim>\<open>INSERT\<close> statements, with the constraints of the schema.\<close>

definition insert_invoice :: "invoice_row \<Rightarrow> db \<Rightarrow> db result" where
  "insert_invoice row d =
     (if inv_id row \<in> set (map inv_id (tbl_invoices d))
      then Inl (IntegrityError ''UNIQUE constraint failed: invoices.id'')
      else if number row \<in> set (map number (tbl_invoices d))
      then Inl (IntegrityError ''UNIQUE constraint failed: invoices.number'')
      else Inr (d\<lparr>tbl_invoices := tbl_invoices d @ [row]\<rparr>))"

text \<open>
  The loop \<^verbatim>\<open>for i, li in enumerate(items)\<close>. \<open>uuid4\<close> is the sequence of tokens that
  \<^verbatim>\<open>str(uuid.uuid4())\<close> returns during the call: \<open>uuid4 0\<close> is the invoice's id and
  \<open>uuid4 (i + 1)\<close> the id of the row of item \<open>i\<close>.
\<close>

fun insert_line_items ::
  "(nat \<Rightarrow> string) \<Rightarrow> string \<Rightarrow> nat \<Rightarrow> LineItem list \<Rightarrow> db \<Rightarrow> db result" where
  "insert_line_items uuid4 iid i [] d = Inr d"
| "insert_line_items uuid4 iid i (li # lis) d =
     (if uuid4 (Suc i) \<in> set (map li_id (tbl_line_items d))
      then Inl (IntegrityError ''UNIQUE constraint failed: line_items.id'')
      else insert_line_items uuid4 iid (Suc i) lis
             (d\<lparr>tbl_line_items := tbl_line_items d @
                  [\<lparr>li_id = uuid4 (Suc i), invoice_id = iid, li_item = li, position = i\<rparr>]\<rparr>))"

definition create_invoice ::
  "datetime \<Rightarrow> nat \<Rightarrow> (nat \<Rightarrow> string) \<Rightarrow> string \<Rightarrow> string \<Rightarrow> LineItem list \<Rightarrow> pyfloat \<Rightarrow> int \<Rightarrow>
   pyfloat \<Rightarrow> string \<Rightarrow> string \<Rightarrow> db \<Rightarrow> Invoice result \<times> db" where
  "create_invoice now year uuid4 cname cemail items tax due_days disc nts cur d =
     (if items = [] then (Inl (ValueError ''Invoice must have at least one line item''), d)
      else if \<not> (0 \<le> tax \<and> tax \<le> 1)
      then (Inl (ValueError ''tax_rate must be between 0 and 1''), d)
      else if \<not> (0 \<le> disc \<and> disc \<le> 1)
      then (Inl (ValueError ''discount must be between 0 and 1''), d)
      else
        (case add_days now due_days of
           Inl e \<Rightarrow> (Inl e, d)
         | Inr due \<Rightarrow>
             (let row = \<lparr>inv_id = uuid4 0, number = invoice_number year d,
                         client_name = cname, client_email = cemail,
                         tax_rate = tax, discount = disc, status = ''draft'',
                         due_date = due, created_at = now, paid_at = None,
                         payment_method = None, inv_notes = nts, currency = cur\<rparr>
              in (case insert_invoice row d of
                    Inl e \<Rightarrow> (Inl e, d)
                  | Inr d1 \<Rightarrow>
                      (case insert_line_items uuid4 (inv_id row) 0 items d1 of
                         Inl e \<Rightarrow> (Inl e, d)
                       | Inr d2 \<Rightarrow> (Inr (row_to_invoice row items), d2))))))"

definition update_status :: "string \<Rightarrow> (invoice_row \<Rightarrow> invoice_row) \<Rightarrow> db \<Rightarrow> db" where
  "update_status i f d =
     d\<lparr>tbl_invoices := map (\<lambda>r. if inv_id r = i then f r else r) (tbl_invoices d)\<rparr>"

definition send_invoice :: "string \<Rightarrow> db \<Rightarrow> Invoice result \<times> db" where
  "send_invoice i d =
     (case select_invoice i d of
        None \<Rightarrow> (Inl (not_found i), d)
      | Some row \<Rightarrow>
          if status row = ''paid'' then (Inl (ValueError ''Cannot send a paid invoice''), d)
          else let d' = update_status i (\<lambda>r. r\<lparr>status := ''sent''\<rparr>) d
               in (get_invoice i d', d'))"

text \<open>\<open>now\<close> is the value of \<^verbatim>\<open>_now()\<close>; the default of \<open>pm\<close> is \<open>bank_transfer\<close>.\<close>

definition mark_paid :: "string \<Rightarrow> string \<Rightarrow> datetime \<Rightarrow> db \<Rightarrow> Invoice result \<times> db" where
  "mark_paid i pm now d =
     (case select_invoice i d of
        None \<Rightarrow> (Inl (not_found i), d)
      | Some row \<Rightarrow>
          if status row = ''paid'' then (Inl (ValueError ''Invoice already paid''), d)
          else let d' = update_status i
                     (\<lambda>r. r\<lparr>status := ''paid'', paid_at := Some now, payment_method := Some pm\<rparr>) d
               in (get_invoice i d', d'))"

definition default_payment_method :: string where
  "default_payment_method = ''bank_transfer''"

text \<open>\<open>today\<close> is \<^verbatim>\<open>datetime.utcnow().date()\<close>.\<close>

definition calculate_overdue_fee :: "string \<Rightarrow> pyfloat \<Rightarrow> date \<Rightarrow> db \<Rightarrow> pyfloat result" where
  "calculate_overdue_fee i daily_rate today d =
     (case get_invoice i d of
        Inl e \<Rightarrow> Inl e
      | Inr iv \<Rightarrow>
          if status iv = ''paid'' then Inr 0
          else let days_overdue = max 0 (today - due_date iv)
               in Inr (py_round (fmul (fmul (total iv) daily_rate) (float_of_int days_overdue)) 2))"

text \<open>
  \<^verbatim>\<open>mark_overdue\<close>: one \<^verbatim>\<open>SELECT\<close> of the ids, then one \<^verbatim>\<open>UPDATE ... WHERE id IN (...)\<close>
  with one parameter for each id, run only when there is an id. \<open>today\<close> is
  \<^verbatim>\<open>datetime.utcnow().date()\<close>. The limits of the database engine (the largest number of
  parameters of one statement, memory, disk) are not part of the model.
\<close>

definition mark_overdue :: "date \<Rightarrow> db \<Rightarrow> string list \<times> db" where
  "mark_overdue today d =
     (let rows = filter (\<lambda>r. status r = ''sent'' \<and> due_date r < today) (tbl_invoices d);
          ids = map inv_id rows
      in if ids \<noteq> []
         then (ids, d\<lparr>tbl_invoices :=
                 map (\<lambda>r. if inv_id r \<in> set ids then r\<lparr>status := ''overdue''\<rparr> else r)
                   (tbl_invoices d)\<rparr>)
         else (ids, d))"

section \<open>Queries and reports\<close>









section \<open>Reachable stores\<close>

text \<open>
  The stores the operations of the source can produce from a new database, with any
  arguments, clock readings and generated tokens.
\<close>

inductive reachable :: "db \<Rightarrow> bool" where
  r_init: "reachable init_db"
| r_create: "reachable d \<Longrightarrow>
     create_invoice now year uuid4 cname cemail items tax due_days disc nts cur d = (res, d') \<Longrightarrow>
     reachable d'"
| r_send: "reachable d \<Longrightarrow> send_invoice i d = (res, d') \<Longrightarrow> reachable d'"
| r_paid: "reachable d \<Longrightarrow> mark_paid i pm now d = (res, d') \<Longrightarrow> reachable d'"
| r_overdue: "reachable d \<Longrightarrow> mark_overdue today d = (ids, d') \<Longrightarrow> reachable d'"

section \<open>Invariants of the store\<close>

text \<open>
  \<^verbatim>\<open>paid_at\<close> and \<^verbatim>\<open>payment_method\<close> are set exactly on a paid invoice.
\<close>

definition paid_fields_ok :: "invoice_row \<Rightarrow> bool" where
  "paid_fields_ok r =
     (if status r = ''paid'' then paid_at r \<noteq> None \<and> payment_method r \<noteq> None
      else paid_at r = None \<and> payment_method r = None)"

text \<open>
  What the schema and the operations keep true of every store: \<^verbatim>\<open>id\<close> is a primary key,
  the paid fields agree with the status, and every line item belongs to an invoice.
\<close>

definition store_ok :: "db \<Rightarrow> bool" where
  "store_ok d =
     (distinct (map inv_id (tbl_invoices d)) \<and>
      list_all paid_fields_ok (tbl_invoices d) \<and>
      list_all (\<lambda>l. invoice_id l \<in> set (map inv_id (tbl_invoices d))) (tbl_line_items d))"

text \<open>The rows that \<open>insert_line_items\<close> appends, starting at position \<open>k\<close>.\<close>

fun new_line_rows ::
  "(nat \<Rightarrow> string) \<Rightarrow> string \<Rightarrow> nat \<Rightarrow> LineItem list \<Rightarrow> line_item_row list" where
  "new_line_rows uuid4 iid k [] = []"
| "new_line_rows uuid4 iid k (li # lis) =
     \<lparr>li_id = uuid4 (Suc k), invoice_id = iid, li_item = li, position = k\<rparr> #
       new_line_rows uuid4 iid (Suc k) lis"

section \<open>Example data\<close>

text \<open>
  The invoice of \<^verbatim>\<open>test_invoice_calculations\<close>: two items, 2 at 100.0 and 1 at 50.0,
  \<^verbatim>\<open>tax_rate=0.1\<close> and \<^verbatim>\<open>discount=0.05\<close>. The literals \<^verbatim>\<open>0.1\<close> and \<^verbatim>\<open>0.05\<close> denote the
  floats nearest to one tenth and to one twentieth. It is created on 2024-01-15 at 10:00
  (ordinal 738900) and due thirty days later.
\<close>

definition example_uuid4 :: "nat \<Rightarrow> string" where
  "example_uuid4 n = replicate (Suc n) CHR ''u''"

definition example_now :: datetime where
  "example_now = 63840909600000000"

definition example_items :: "LineItem list" where
  "example_items = [\<lparr>description = ''Service A'', qty = 2, unit_price = 100\<rparr>,
                    \<lparr>description = ''Service B'', qty = 1, unit_price = 50\<rparr>]"

definition example_row :: invoice_row where
  "example_row =
     \<lparr>inv_id = ''u'', number = ''INV-2024-00001'', client_name = ''Acme Corp'',
      client_email = ''billing@acme.com'', tax_rate = fl (1 / 10), discount = fl (5 / 100),
      status = ''draft'', due_date = 738930, created_at = example_now, paid_at = None,
      payment_method = None, inv_notes = [], currency = ''USD''\<rparr>"

definition example_invoice :: Invoice where
  "example_invoice = row_to_invoice example_row example_items"

definition example_line_rows :: "line_item_row list" where
  "example_line_rows =
     [\<lparr>li_id = ''uu'', invoice_id = ''u'',
       li_item = \<lparr>description = ''Service A'', qty = 2, unit_price = 100\<rparr>, position = 0\<rparr>,
      \<lparr>li_id = ''uuu'', invoice_id = ''u'',
       li_item = \<lparr>description = ''Service B'', qty = 1, unit_price = 50\<rparr>, position = 1\<rparr>]"

text \<open>The store after the invoice is created, after it is sent, and after it is paid.\<close>

definition store_draft :: db where
  "store_draft = \<lparr>tbl_invoices = [example_row], tbl_line_items = example_line_rows\<rparr>"

definition store_sent :: db where
  "store_sent =
     \<lparr>tbl_invoices = [example_row\<lparr>status := ''sent''\<rparr>], tbl_line_items = example_line_rows\<rparr>"

definition example_paid_row :: invoice_row where
  "example_paid_row =
     example_row\<lparr>status := ''paid'', paid_at := Some (example_now + 1),
                 payment_method := Some ''credit_card''\<rparr>"

definition store_paid :: db where
  "store_paid = \<lparr>tbl_invoices = [example_paid_row], tbl_line_items = example_line_rows\<rparr>"



section \<open>Properties of the float model\<close>

text \<open>
  \<open>ilog2\<close> is the binary exponent, and \<open>fl q\<close> is a multiple of the unit in the last
  place of \<open>q\<close> that lies within half a unit of \<open>q\<close>.
\<close>

lemma bit_length_bounds:
  "0 < n \<Longrightarrow> 2 ^ (bit_length n - 1) \<le> n \<and> n < 2 ^ bit_length n"
proof (induction n rule: bit_length.induct)
  case (1 n)
  show ?case
  proof (cases "n div 2 = 0")
    case True
    with "1.prems" have "n = 1" by (simp add: div_eq_0_iff)
    then show ?thesis
      by (simp add: bit_length.simps [of "Suc 0"] bit_length.simps [of 0])
  next
    case False
    then have pos: "0 < n div 2" by simp
    from "1.IH" [OF _ pos] "1.prems"
    have ih: "2 ^ (bit_length (n div 2) - 1) \<le> n div 2" "n div 2 < 2 ^ bit_length (n div 2)"
      by simp_all
    have bl: "bit_length n = Suc (bit_length (n div 2))"
      using "1.prems" by (simp add: bit_length.simps [of n])
    have k: "0 < bit_length (n div 2)"
      using pos by (simp add: bit_length.simps [of "n div 2"])
    then have e: "2 ^ bit_length (n div 2) = 2 * 2 ^ (bit_length (n div 2) - 1)"
      by (cases "bit_length (n div 2)") simp_all
    have "2 * 2 ^ (bit_length (n div 2) - 1) \<le> 2 * (n div 2)" using ih(1) by simp
    also have "\<dots> \<le> n" by simp
    finally have lo: "2 ^ (bit_length n - 1) \<le> n" by (simp add: bl e)
    have "n < 2 * (n div 2) + 2" by arith
    also have "\<dots> \<le> 2 * 2 ^ bit_length (n div 2)" using ih(2) by simp
    finally have hi: "n < 2 ^ bit_length n" by (simp add: bl)
    from lo hi show ?thesis by simp
  qed
qed

lemma pow2_nonneg_exp: "0 \<le> k \<Longrightarrow> pow2 k = 2 ^ nat k"
  by (simp add: pow2_def)

lemma pow2_neg_exp: "k \<le> 0 \<Longrightarrow> pow2 k = 1 / 2 ^ nat (- k)"
  by (simp add: pow2_def)

lemma ilog2_bounds:
  assumes "q \<noteq> 0"
  shows "pow2 (ilog2 q) \<le> \<bar>q\<bar> \<and> \<bar>q\<bar> < pow2 (ilog2 q + 1)"
proof (cases "1 \<le> \<bar>q\<bar>")
  case True
  define n where "n = nat \<lfloor>\<bar>q\<bar>\<rfloor>"
  from True have n1: "1 \<le> \<lfloor>\<bar>q\<bar>\<rfloor>" by (simp add: le_floor_iff)
  then have npos: "0 < n" by (simp add: n_def)
  have nq: "of_nat n \<le> \<bar>q\<bar>" "\<bar>q\<bar> < of_nat n + 1"
    using n1 floor_correct [of "\<bar>q\<bar>"] by (simp_all add: n_def)
  from bit_length_bounds [OF npos]
  have b: "2 ^ (bit_length n - 1) \<le> n" "n < 2 ^ bit_length n" by simp_all
  have kpos: "0 < bit_length n" using npos by (simp add: bit_length.simps [of n])
  have e: "ilog2 q = int (bit_length n - 1)"
    using True kpos by (simp add: ilog2_def n_def)
  have lo: "pow2 (ilog2 q) \<le> \<bar>q\<bar>"
  proof -
    have "(2::rat) ^ (bit_length n - 1) \<le> of_nat n"
      using b(1) by (metis of_nat_le_iff of_nat_numeral of_nat_power)
    then have "(2::rat) ^ (bit_length n - 1) \<le> \<bar>q\<bar>" using nq(1) by (rule order_trans)
    then show ?thesis by (simp add: e pow2_nonneg_exp)
  qed
  have hi: "\<bar>q\<bar> < pow2 (ilog2 q + 1)"
  proof -
    from b(2) have "n + 1 \<le> 2 ^ bit_length n" by simp
    then have "(of_nat (n + 1) :: rat) \<le> of_nat (2 ^ bit_length n)"
      by (simp only: of_nat_le_iff)
    then have "(of_nat n :: rat) + 1 \<le> 2 ^ bit_length n" by simp
    with nq(2) have "\<bar>q\<bar> < 2 ^ bit_length n" by (rule less_le_trans)
    moreover have "ilog2 q + 1 = int (bit_length n)" using kpos by (simp add: e)
    ultimately show ?thesis by (simp add: pow2_nonneg_exp)
  qed
  from lo hi show ?thesis by simp
next
  case False
  define r where "r = 1 / \<bar>q\<bar>"
  define m where "m = nat (\<lceil>r\<rceil> - 1)"
  from assms False have q: "0 < \<bar>q\<bar>" "\<bar>q\<bar> < 1" by simp_all
  then have r1: "1 < r" by (simp add: r_def)
  then have c2: "2 \<le> \<lceil>r\<rceil>" by (simp add: le_ceiling_iff) 
  then have mpos: "0 < m" by (simp add: m_def)
  have mr: "of_nat m < r" "r \<le> of_nat m + 1"
  proof -
    have "of_int (\<lceil>r\<rceil> - 1) < r" by (simp add: ceiling_correct)
    with c2 show "of_nat m < r" by (simp add: m_def)
    have "r \<le> of_int \<lceil>r\<rceil>" by (rule le_of_int_ceiling)
    with c2 show "r \<le> of_nat m + 1" by (simp add: m_def)
  qed
  from bit_length_bounds [OF mpos]
  have b: "2 ^ (bit_length m - 1) \<le> m" "m < 2 ^ bit_length m" by simp_all
  have kpos: "0 < bit_length m" using mpos by (simp add: bit_length.simps [of m])
  have e: "ilog2 q = - int (bit_length m)"
    using False by (simp add: ilog2_def m_def r_def)
  have qr: "\<bar>q\<bar> = 1 / r" using q by (simp add: r_def)
  have rpos: "0 < r" using r1 by simp
  have lo: "pow2 (ilog2 q) \<le> \<bar>q\<bar>"
  proof -
    from b(2) have "m + 1 \<le> 2 ^ bit_length m" by simp
    then have "(of_nat (m + 1) :: rat) \<le> of_nat (2 ^ bit_length m)"
      by (simp only: of_nat_le_iff)
    then have "(of_nat m :: rat) + 1 \<le> 2 ^ bit_length m" by simp
    with mr(2) have "r \<le> 2 ^ bit_length m" by (rule order_trans)
    then have "1 / 2 ^ bit_length m \<le> 1 / r"
      using rpos by (simp add: frac_le)
    then show ?thesis by (simp add: e pow2_neg_exp qr)
  qed
  have hi: "\<bar>q\<bar> < pow2 (ilog2 q + 1)"
  proof -
    have "(2::rat) ^ (bit_length m - 1) \<le> of_nat m"
      using b(1) by (metis of_nat_le_iff of_nat_numeral of_nat_power)
    then have lt: "(2::rat) ^ (bit_length m - 1) < r" using mr(1) by (rule le_less_trans)
    have "1 / r < 1 / 2 ^ (bit_length m - 1)"
      using lt by (simp add: frac_less2)
    moreover have "ilog2 q + 1 = - int (bit_length m - 1)" using kpos by (simp add: e)
    ultimately show ?thesis by (simp add: pow2_neg_exp qr)
  qed
  from lo hi show ?thesis by simp
qed

lemma pow2_pos: "0 < pow2 k"
  by (simp add: pow2_def)

lemma round_half_even_near: "\<bar>of_int (round_half_even x) - x\<bar> \<le> 1 / 2"
proof -
  have "of_int \<lfloor>x\<rfloor> \<le> x" "x < of_int \<lfloor>x\<rfloor> + 1"
    using floor_correct [of x] by simp_all
  then show ?thesis
    by (auto simp: round_half_even_def Let_def abs_le_iff)
qed

lemma fl_near:
  assumes "q \<noteq> 0"
  shows "\<exists>m. fl q = of_int m * pow2 (max (ilog2 q) (- 1022) - 52) \<and>
             \<bar>fl q - q\<bar> \<le> pow2 (max (ilog2 q) (- 1022) - 52) / 2"
proof -
  define u where "u = pow2 (max (ilog2 q) (- 1022) - 52)"
  have upos: "0 < u" unfolding u_def by (rule pow2_pos)
  have f: "fl q = of_int (round_half_even (q / u)) * u"
    using assms by (simp add: fl_def Let_def u_def)
  have "\<bar>of_int (round_half_even (q / u)) - q / u\<bar> \<le> 1 / 2"
    by (rule round_half_even_near)
  then have "\<bar>of_int (round_half_even (q / u)) - q / u\<bar> * u \<le> 1 / 2 * u"
    using upos by (simp only: mult_le_cancel_right_pos)
  moreover have "\<bar>of_int (round_half_even (q / u)) - q / u\<bar> * u =
      \<bar>of_int (round_half_even (q / u)) * u - q\<bar>"
  proof -
    have "\<bar>of_int (round_half_even (q / u)) - q / u\<bar> * u =
        \<bar>(of_int (round_half_even (q / u)) - q / u) * u\<bar>"
      using upos by (simp add: abs_mult)
    also have "(of_int (round_half_even (q / u)) - q / u) * u =
        of_int (round_half_even (q / u)) * u - q"
      using upos by (simp add: left_diff_distrib)
    finally show ?thesis .
  qed
  ultimately have "\<bar>fl q - q\<bar> \<le> u / 2" by (simp add: f)
  with f show ?thesis unfolding u_def by blast
qed

section \<open>Properties of the monetary calculator\<close>

text \<open>The arithmetic of the worked example, step by step, in binary64.\<close>

lemma ex_line1: "py_round (fmul 2 100) 2 = 200"
  by code_simp

lemma ex_line2: "py_round (fmul 1 50) 2 = 50"
  by code_simp

lemma ex_sub: "py_round (py_sum [200, 50]) 2 = 250"
  by code_simp

lemma ex_disc: "py_round (fmul 250 (fl (5 / 100))) 2 = 25 / 2"
  by code_simp

lemma ex_taxable: "py_round (fsub 250 (25 / 2)) 2 = 475 / 2"
  by code_simp

lemma ex_tax: "py_round (fmul (475 / 2) (fl (1 / 10))) 2 = 95 / 4"
  by code_simp

lemma ex_total: "py_round (fadd (475 / 2) (95 / 4)) 2 = 1045 / 4"
  by code_simp

lemma worked_example:
  assumes "line_items iv = [a, b]" "qty a = 2" "unit_price a = 100" "qty b = 1" "unit_price b = 50"
    "tax_rate iv = fl (1 / 10)" "discount iv = fl (5 / 100)"
  shows "subtotal iv = 250 \<and> discount_amount iv = 25 / 2 \<and> taxable_amount iv = 475 / 2 \<and>
      tax_amount iv = 95 / 4 \<and> total iv = 1045 / 4"
proof -
  have s: "subtotal iv = 250"
    by (simp add: subtotal_def li_total_def assms ex_line1 ex_line2 ex_sub)
  have d: "discount_amount iv = 25 / 2"
    by (simp only: discount_amount_def s assms ex_disc)
  have t: "taxable_amount iv = 475 / 2"
    by (simp only: taxable_amount_def s d ex_taxable)
  have x: "tax_amount iv = 95 / 4"
    by (simp only: tax_amount_def t assms ex_tax)
  have "total iv = 1045 / 4"
    by (simp only: total_def t x ex_total)
  with s d t x show ?thesis by simp
qed

lemma fl_zero [simp]: "fl 0 = 0"
  by (simp add: fl_def)

lemma py_round_zero [simp]: "py_round 0 n = 0"
  by (simp add: py_round_def round_half_even_def)

lemma fmul_zero_right [simp]: "fmul x 0 = 0"
  by (simp add: fmul_def)

lemma float_of_int_zero [simp]: "float_of_int 0 = 0"
  by (simp add: float_of_int_def)

lemma py_sum_Nil [simp]: "py_sum [] = 0"
  by (simp add: py_sum_def)



section \<open>Lemmas about the store\<close>

lemma find_map_keep:
  assumes "\<And>r. P (g r) = P r"
  shows "find P (map g xs) = map_option g (find P xs)"
  using assms by (induction xs) auto

lemma select_update_same:
  assumes "\<And>r. inv_id (f r) = inv_id r"
  shows "select_invoice j (update_status i f d) =
         map_option (\<lambda>r. if inv_id r = i then f r else r) (select_invoice j d)"
proof -
  have "\<And>r. (inv_id (if inv_id r = i then f r else r) = j) = (inv_id r = j)"
    by (simp add: assms)
  then show ?thesis
    unfolding select_invoice_def update_status_def
    by (simp add: find_map_keep [where P = "\<lambda>r. inv_id r = j"])
qed

lemma select_some_id: "select_invoice i d = Some row \<Longrightarrow> inv_id row = i"
  by (auto simp: select_invoice_def find_Some_iff)

lemma select_update_lookup:
  assumes "\<And>r. inv_id (f r) = inv_id r"
  shows "select_invoice j (update_status i f d) =
         (if j = i then map_option f (select_invoice i d) else select_invoice j d)"
proof (cases "select_invoice j d")
  case None
  then show ?thesis by (auto simp: select_update_same [OF assms])
next
  case (Some r)
  then have "inv_id r = j" by (rule select_some_id)
  with Some show ?thesis by (auto simp: select_update_same [OF assms])
qed

lemma get_invoice_status:
  "get_invoice i d = Inr iv \<Longrightarrow> select_invoice i d = Some row \<Longrightarrow>
     inv_id iv = inv_id row \<and> status iv = status row \<and> paid_at iv = paid_at row \<and>
     payment_method iv = payment_method row \<and> due_date iv = due_date row"
  by (auto simp: get_invoice_def row_to_invoice_def Let_def)

lemma get_invoice_found:
  "select_invoice i d = Some row \<Longrightarrow> \<exists>iv. get_invoice i d = Inr iv"
  by (simp add: get_invoice_def Let_def)

lemma insert_line_items_error:
  "insert_line_items uuid4 iid k items d = Inl e \<Longrightarrow> \<exists>m. e = IntegrityError m"
  by (induction items arbitrary: k d) (auto split: if_splits)

lemma insert_invoice_error: "insert_invoice row d = Inl e \<Longrightarrow> \<exists>m. e = IntegrityError m"
  by (auto simp: insert_invoice_def split: if_splits)

lemma add_days_error: "add_days now n = Inl e \<Longrightarrow> \<exists>m. e = OverflowError m"
  by (auto simp: add_days_def Let_def split: if_splits)

lemma id_in_filtered:
  assumes "distinct (map inv_id rows)" and "r \<in> set rows"
  shows "inv_id r \<in> set (map inv_id (filter P rows)) \<longleftrightarrow> P r"
proof
  assume "inv_id r \<in> set (map inv_id (filter P rows))"
  then obtain r' where r': "r' \<in> set rows" "P r'" "inv_id r' = inv_id r" by auto
  from assms(1) have "inj_on inv_id (set rows)" by (simp add: distinct_map)
  with r' assms(2) have "r' = r" by (auto dest: inj_onD)
  with r' show "P r" by simp
next
  assume "P r"
  with assms(2) show "inv_id r \<in> set (map inv_id (filter P rows))" by auto
qed

lemma mark_overdue_rows:
  assumes "distinct (map inv_id (tbl_invoices d))"
  shows "tbl_invoices (snd (mark_overdue today d)) =
           map (\<lambda>r. if status r = ''sent'' \<and> due_date r < today
                     then r\<lparr>status := ''overdue''\<rparr> else r) (tbl_invoices d) \<and>
         tbl_line_items (snd (mark_overdue today d)) = tbl_line_items d"
proof -
  let ?P = "\<lambda>r. status r = ''sent'' \<and> due_date r < today"
  let ?ids = "map inv_id (filter ?P (tbl_invoices d))"
  have mem: "\<And>r. r \<in> set (tbl_invoices d) \<Longrightarrow> inv_id r \<in> set ?ids \<longleftrightarrow> ?P r"
    using assms by (rule id_in_filtered)
  have upd: "map (\<lambda>r. if inv_id r \<in> set ?ids then r\<lparr>status := ''overdue''\<rparr> else r) (tbl_invoices d) =
             map (\<lambda>r. if ?P r then r\<lparr>status := ''overdue''\<rparr> else r) (tbl_invoices d)"
    by (rule map_cong [OF refl]) (simp only: mem)
  have none: "map (\<lambda>r. if ?P r then r\<lparr>status := ''overdue''\<rparr> else r) (tbl_invoices d) = tbl_invoices d"
    if "?ids = []"
  proof -
    from that have "\<And>r. r \<in> set (tbl_invoices d) \<Longrightarrow> \<not> ?P r"
      by (auto simp: filter_empty_conv)
    then show ?thesis by (simp add: map_idI)
  qed
  have rows: "tbl_invoices (snd (mark_overdue today d)) =
      map (\<lambda>r. if ?P r then r\<lparr>status := ''overdue''\<rparr> else r) (tbl_invoices d)"
  proof (cases "?ids = []")
    case True
    then have "snd (mark_overdue today d) = d" by (simp add: mark_overdue_def Let_def)
    with none [OF True] show ?thesis by simp
  next
    case False
    then have "tbl_invoices (snd (mark_overdue today d)) =
        map (\<lambda>r. if inv_id r \<in> set ?ids then r\<lparr>status := ''overdue''\<rparr> else r) (tbl_invoices d)"
      by (simp add: mark_overdue_def Let_def)
    with upd show ?thesis by simp
  qed
  have items: "tbl_line_items (snd (mark_overdue today d)) = tbl_line_items d"
    by (simp add: mark_overdue_def Let_def)
  show ?thesis using rows items by blast
qed

lemma insert_line_items_ok:
  "insert_line_items uuid4 iid k items d = Inr d2 \<Longrightarrow>
     tbl_invoices d2 = tbl_invoices d \<and>
     tbl_line_items d2 = tbl_line_items d @ new_line_rows uuid4 iid k items"
proof (induction items arbitrary: k d)
  case Nil
  then show ?case by simp
next
  case (Cons li lis)
  then show ?case
    by (auto split: if_splits dest!: Cons.IH)
qed

lemma upt_shift: "[k..<k + Suc n] = k # [Suc k..<Suc k + n]"
  by (simp add: upt_conv_Cons del: upt_Suc)

lemma new_line_rows_props:
  "map li_item (new_line_rows uuid4 iid k items) = items \<and>
   map position (new_line_rows uuid4 iid k items) = [k..<k + length items] \<and>
   list_all (\<lambda>l. invoice_id l = iid) (new_line_rows uuid4 iid k items)"
proof (induction items arbitrary: k)
  case Nil
  then show ?case by simp
next
  case (Cons li lis)
  have "[k..<k + length (li # lis)] = k # [Suc k..<Suc k + length lis]"
    using upt_shift [of k "length lis"] by simp
  with Cons show ?case by simp
qed

lemma create_invoice_cases:
  assumes "create_invoice now year uuid4 cname cemail items tax due_days disc nts cur d = (res, d')"
  shows "(\<exists>e. res = Inl e \<and> d' = d) \<or>
         (\<exists>row. res = Inr (row_to_invoice row items) \<and> items \<noteq> [] \<and>
            inv_id row = uuid4 0 \<and> status row = ''draft'' \<and>
            paid_at row = None \<and> payment_method row = None \<and>
            inv_id row \<notin> set (map inv_id (tbl_invoices d)) \<and>
            tbl_invoices d' = tbl_invoices d @ [row] \<and>
            tbl_line_items d' = tbl_line_items d @ new_line_rows uuid4 (inv_id row) 0 items)"
  using assms
  by (auto simp: create_invoice_def insert_invoice_def Let_def
      split: if_splits sum.splits dest!: insert_line_items_ok)


lemma line_items_update [simp]: "tbl_line_items (update_status i f d) = tbl_line_items d"
  by (simp add: update_status_def)

lemma store_ok_init: "store_ok init_db"
  by (simp add: store_ok_def init_db_def)

lemma ids_update_status:
  assumes "\<And>r. inv_id (f r) = inv_id r"
  shows "map inv_id (tbl_invoices (update_status i f d)) = map inv_id (tbl_invoices d)"
  by (simp add: update_status_def assms)

lemma store_ok_update:
  assumes "store_ok d" and "\<And>r. inv_id (f r) = inv_id r"
    and "\<And>r. r \<in> set (tbl_invoices d) \<Longrightarrow> inv_id r = i \<Longrightarrow> paid_fields_ok (f r)"
  shows "store_ok (update_status i f d)"
proof -
  have ids: "map inv_id (tbl_invoices (update_status i f d)) = map inv_id (tbl_invoices d)"
    using assms(2) by (rule ids_update_status)
  have "list_all paid_fields_ok (tbl_invoices (update_status i f d))"
    using assms(1,3) by (auto simp: update_status_def store_ok_def list_all_iff)
  with assms(1) ids show ?thesis
    unfolding store_ok_def by simp
qed

lemma select_mem: "select_invoice i d = Some row \<Longrightarrow> row \<in> set (tbl_invoices d)"
  by (auto simp: select_invoice_def find_Some_iff)

lemma select_unique:
  assumes "distinct (map inv_id (tbl_invoices d))" and "r \<in> set (tbl_invoices d)"
  shows "select_invoice (inv_id r) d = Some r"
proof -
  have "\<exists>x. x \<in> set (tbl_invoices d) \<and> inv_id x = inv_id r" using assms(2) by blast
  then obtain x where x: "select_invoice (inv_id r) d = Some x"
    by (cases "select_invoice (inv_id r) d") (auto simp: select_invoice_def find_None_iff)
  then have "x \<in> set (tbl_invoices d)" "inv_id x = inv_id r"
    by (auto dest: select_mem select_some_id)
  moreover from assms(1) have "inj_on inv_id (set (tbl_invoices d))" by (simp add: distinct_map)
  ultimately have "x = r" using assms(2) by (auto dest: inj_onD)
  with x show ?thesis by simp
qed

lemma store_ok_send:
  assumes "store_ok d"
  shows "store_ok (snd (send_invoice i d))"
proof (cases "select_invoice i d")
  case None
  then show ?thesis using assms by (simp add: send_invoice_def)
next
  case (Some row)
  show ?thesis
  proof (cases "status row = ''paid''")
    case True
    with Some show ?thesis using assms by (simp add: send_invoice_def)
  next
    case False
    have "store_ok (update_status i (\<lambda>r. r\<lparr>status := ''sent''\<rparr>) d)"
    proof (rule store_ok_update [OF assms])
      fix r assume r: "r \<in> set (tbl_invoices d)" "inv_id r = i"
      from assms have "distinct (map inv_id (tbl_invoices d))" by (simp add: store_ok_def)
      from select_unique [OF this r(1)] r(2) Some have "r = row" by simp
      moreover from assms r(1) have "paid_fields_ok r" by (simp add: store_ok_def list_all_iff)
      ultimately show "paid_fields_ok (r\<lparr>status := ''sent''\<rparr>)"
        using False by (simp add: paid_fields_ok_def)
    qed simp
    with Some False show ?thesis by (simp add: send_invoice_def Let_def)
  qed
qed

lemma store_ok_paid:
  assumes "store_ok d"
  shows "store_ok (snd (mark_paid i pm now d))"
proof (cases "select_invoice i d")
  case None
  then show ?thesis using assms by (simp add: mark_paid_def)
next
  case (Some row)
  show ?thesis
  proof (cases "status row = ''paid''")
    case True
    with Some show ?thesis using assms by (simp add: mark_paid_def)
  next
    case False
    have "store_ok (update_status i
        (\<lambda>r. r\<lparr>status := ''paid'', paid_at := Some now, payment_method := Some pm\<rparr>) d)"
      by (rule store_ok_update [OF assms]) (simp_all add: paid_fields_ok_def)
    with Some False show ?thesis by (simp add: mark_paid_def Let_def)
  qed
qed

lemma store_ok_overdue:
  assumes "store_ok d"
  shows "store_ok (snd (mark_overdue today d))"
proof -
  let ?g = "\<lambda>r. if status r = ''sent'' \<and> due_date r < today then r\<lparr>status := ''overdue''\<rparr> else r"
  from assms have dist: "distinct (map inv_id (tbl_invoices d))" by (simp add: store_ok_def)
  have rows: "tbl_invoices (snd (mark_overdue today d)) = map ?g (tbl_invoices d)"
    and items: "tbl_line_items (snd (mark_overdue today d)) = tbl_line_items d"
    using mark_overdue_rows [OF dist, of today] by simp_all
  have ids: "map inv_id (map ?g (tbl_invoices d)) = map inv_id (tbl_invoices d)"
    by simp
  have "list_all paid_fields_ok (map ?g (tbl_invoices d))"
    using assms by (auto simp: store_ok_def list_all_iff paid_fields_ok_def)
  with assms show ?thesis
    unfolding store_ok_def rows items ids by simp
qed

lemma store_ok_create:
  assumes "store_ok d"
  shows "store_ok (snd (create_invoice now year uuid4 cname cemail items tax due_days disc nts cur d))"
proof -
  obtain res d' where c:
    "create_invoice now year uuid4 cname cemail items tax due_days disc nts cur d = (res, d')"
    by (cases "create_invoice now year uuid4 cname cemail items tax due_days disc nts cur d")
  from create_invoice_cases [OF c] show ?thesis
  proof (elim disjE exE conjE)
    fix e assume "d' = d"
    with assms c show ?thesis by simp
  next
    fix row
    assume row: "status row = ''draft''" "paid_at row = None" "payment_method row = None"
      "inv_id row \<notin> set (map inv_id (tbl_invoices d))"
      "tbl_invoices d' = tbl_invoices d @ [row]"
      "tbl_line_items d' = tbl_line_items d @ new_line_rows uuid4 (inv_id row) 0 items"
    have "list_all (\<lambda>l. invoice_id l = inv_id row) (new_line_rows uuid4 (inv_id row) 0 items)"
      using new_line_rows_props by blast
    then have "store_ok d'"
      using assms row by (auto simp: store_ok_def list_all_iff paid_fields_ok_def)
    with c show ?thesis by simp
  qed
qed

lemma reachable_store_ok: "reachable d \<Longrightarrow> store_ok d"
proof (induction rule: reachable.induct)
  case r_init
  show ?case by (rule store_ok_init)
next
  case (r_create d now year uuid4 cname cemail items tax due_days disc nts cur res d')
  from store_ok_create [OF r_create.IH, of now year uuid4 cname cemail items tax due_days disc nts cur]
    r_create.hyps(2) show ?case by simp
next
  case (r_send d i res d')
  from store_ok_send [OF r_send.IH, of i] r_send.hyps(2) show ?case by simp
next
  case (r_paid d i pm now res d')
  from store_ok_paid [OF r_paid.IH, of i pm now] r_paid.hyps(2) show ?case by simp
next
  case (r_overdue d today ids d')
  from store_ok_overdue [OF r_overdue.IH, of today] r_overdue.hyps(2) show ?case by simp
qed

section \<open>Lifecycle\<close>

text \<open>
  C2. \<^verbatim>\<open>mark_overdue\<close> sets to \<open>overdue\<close> exactly the invoices that are \<open>sent\<close> and due
  strictly before today, leaves every other invoice (draft, paid, overdue, sent and not
  past due) and every line item as it was, and returns exactly the ids of the invoices
  it changed, each once.
\<close>

theorem mark_overdue_exact:
  assumes "distinct (map inv_id (tbl_invoices d))"
  shows "tbl_invoices (snd (mark_overdue today d)) =
           map (\<lambda>r. if status r = ''sent'' \<and> due_date r < today
                     then r\<lparr>status := ''overdue''\<rparr> else r) (tbl_invoices d) \<and>
         tbl_line_items (snd (mark_overdue today d)) = tbl_line_items d \<and>
         (\<forall>r \<in> set (tbl_invoices d).
            inv_id r \<in> set (fst (mark_overdue today d)) \<longleftrightarrow>
              status r = ''sent'' \<and> due_date r < today) \<and>
         set (fst (mark_overdue today d)) \<subseteq> inv_id ` set (tbl_invoices d) \<and>
         distinct (fst (mark_overdue today d))"
proof -
  let ?P = "\<lambda>r. status r = ''sent'' \<and> due_date r < today"
  let ?ids = "map inv_id (filter ?P (tbl_invoices d))"
  have ids: "fst (mark_overdue today d) = ?ids"
    by (simp add: mark_overdue_def Let_def)
  have mem: "\<And>r. r \<in> set (tbl_invoices d) \<Longrightarrow> inv_id r \<in> set ?ids \<longleftrightarrow> ?P r"
    using assms by (rule id_in_filtered)
  have dist: "distinct ?ids"
    using assms by (simp add: distinct_map_filter)
  have sub: "set ?ids \<subseteq> inv_id ` set (tbl_invoices d)" by auto
  show ?thesis
    unfolding ids using mark_overdue_rows [OF assms, of today] mem dist sub by blast
qed

theorem mark_overdue_exact_witness:
  "distinct (map inv_id (tbl_invoices store_sent)) \<and>
   fst (mark_overdue 738931 store_sent) = [''u''] \<and>
   map status (tbl_invoices (snd (mark_overdue 738931 store_sent))) = [''overdue''] \<and>
   map status (tbl_invoices (snd (mark_overdue 738930 store_sent))) = [''sent''] \<and>
   map status (tbl_invoices (snd (mark_overdue 738931 store_paid))) = [''paid'']"
proof -
  have d: "distinct (map inv_id (tbl_invoices store_sent))"
    by (simp add: store_sent_def)
  have p: "distinct (map inv_id (tbl_invoices store_paid))"
    by (simp add: store_paid_def)
  have a: "map status (tbl_invoices (snd (mark_overdue 738931 store_sent))) = [''overdue'']"
    using mark_overdue_exact [OF d, of 738931] by (simp add: store_sent_def example_row_def)
  have b: "map status (tbl_invoices (snd (mark_overdue 738930 store_sent))) = [''sent'']"
    using mark_overdue_exact [OF d, of 738930] by (simp add: store_sent_def example_row_def)
  have c: "map status (tbl_invoices (snd (mark_overdue 738931 store_paid))) = [''paid'']"
    using mark_overdue_exact [OF p, of 738931]
    by (simp add: store_paid_def example_paid_row_def example_row_def)
  have e: "fst (mark_overdue 738931 store_sent) = [''u'']"
    by (simp add: mark_overdue_def store_sent_def example_row_def)
  from d a b c e show ?thesis by simp
qed

text \<open>
  C3. On an invoice that is not paid, \<^verbatim>\<open>mark_paid\<close> returns the invoice with status
  \<open>paid\<close>, \<^verbatim>\<open>paid_at\<close> set to the current time and \<^verbatim>\<open>payment_method\<close> set to the given
  value (\<open>bank_transfer\<close> when none is given), stores exactly that change and leaves every
  other invoice alone. On a paid invoice it raises \<^verbatim>\<open>ValueError("Invoice already paid")\<close>,
  the specification's InvalidTransitionError, and the store is unchanged.
\<close>

theorem mark_paid_sets_fields:
  assumes "select_invoice i d = Some row"
  shows "(status row \<noteq> ''paid'' \<longrightarrow>
            (\<exists>iv. fst (mark_paid i pm now d) = Inr iv \<and> inv_id iv = i \<and> status iv = ''paid'' \<and>
                  paid_at iv = Some now \<and> payment_method iv = Some pm) \<and>
            (\<exists>iv. fst (mark_paid i default_payment_method now d) = Inr iv \<and>
                  payment_method iv = Some ''bank_transfer'') \<and>
            (\<forall>j. select_invoice j (snd (mark_paid i pm now d)) =
                  (if j = i
                   then Some (row\<lparr>status := ''paid'', paid_at := Some now, payment_method := Some pm\<rparr>)
                   else select_invoice j d))) \<and>
         (status row = ''paid'' \<longrightarrow>
            mark_paid i pm now d = (Inl (ValueError ''Invoice already paid''), d))"
proof -
  have id: "inv_id row = i" using assms by (rule select_some_id)
  have look: "select_invoice j (update_status i
        (\<lambda>r. r\<lparr>status := ''paid'', paid_at := Some now, payment_method := Some m\<rparr>) d) =
      (if j = i then Some (row\<lparr>status := ''paid'', paid_at := Some now, payment_method := Some m\<rparr>)
       else select_invoice j d)" for j m
    using assms by (simp add: select_update_lookup)
  have paid: "mark_paid i pm now d = (Inl (ValueError ''Invoice already paid''), d)"
    if "status row = ''paid''"
    using that assms by (simp add: mark_paid_def)
  have ok: "mark_paid i m now d =
      (get_invoice i (update_status i
          (\<lambda>r. r\<lparr>status := ''paid'', paid_at := Some now, payment_method := Some m\<rparr>) d),
       update_status i
          (\<lambda>r. r\<lparr>status := ''paid'', paid_at := Some now, payment_method := Some m\<rparr>) d)"
    if "status row \<noteq> ''paid''" for m
    using that assms by (simp add: mark_paid_def Let_def)
  have res: "\<exists>iv. get_invoice i (update_status i
          (\<lambda>r. r\<lparr>status := ''paid'', paid_at := Some now, payment_method := Some m\<rparr>) d) = Inr iv \<and>
        inv_id iv = i \<and> status iv = ''paid'' \<and> paid_at iv = Some now \<and> payment_method iv = Some m"
    for m
  proof -
    let ?d' = "update_status i
          (\<lambda>r. r\<lparr>status := ''paid'', paid_at := Some now, payment_method := Some m\<rparr>) d"
    have s: "select_invoice i ?d' =
        Some (row\<lparr>status := ''paid'', paid_at := Some now, payment_method := Some m\<rparr>)"
      by (simp add: look)
    then obtain iv where g: "get_invoice i ?d' = Inr iv" using get_invoice_found by blast
    from get_invoice_status [OF g s] id
    have "inv_id iv = i \<and> status iv = ''paid'' \<and> paid_at iv = Some now \<and> payment_method iv = Some m"
      by simp
    with g show ?thesis by blast
  qed
  show ?thesis
  proof (cases "status row = ''paid''")
    case True
    then show ?thesis using paid by simp
  next
    case False
    have a: "\<exists>iv. fst (mark_paid i pm now d) = Inr iv \<and> inv_id iv = i \<and> status iv = ''paid'' \<and>
                  paid_at iv = Some now \<and> payment_method iv = Some pm"
      using ok [OF False, of pm] res [of pm] by simp
    have b: "\<exists>iv. fst (mark_paid i default_payment_method now d) = Inr iv \<and>
                  payment_method iv = Some ''bank_transfer''"
      using ok [OF False, of default_payment_method] res [of default_payment_method]
      by (auto simp: default_payment_method_def)
    have c: "\<forall>j. select_invoice j (snd (mark_paid i pm now d)) =
                  (if j = i
                   then Some (row\<lparr>status := ''paid'', paid_at := Some now, payment_method := Some pm\<rparr>)
                   else select_invoice j d)"
      using ok [OF False, of pm] look [of _ pm] by simp
    from False a b c show ?thesis by blast
  qed
qed

lemma select_store_sent: "select_invoice ''u'' store_sent = Some (example_row\<lparr>status := ''sent''\<rparr>)"
  by (simp add: select_invoice_def store_sent_def example_row_def)

lemma select_store_draft: "select_invoice ''u'' store_draft = Some example_row"
  by (simp add: select_invoice_def store_draft_def example_row_def)

lemma select_store_paid: "select_invoice ''u'' store_paid = Some example_paid_row"
  by (simp add: select_invoice_def store_paid_def example_paid_row_def example_row_def)

theorem mark_paid_sets_fields_witness:
  "select_invoice ''u'' store_sent = Some (example_row\<lparr>status := ''sent''\<rparr>) \<and>
   (\<exists>iv. fst (mark_paid ''u'' ''credit_card'' (example_now + 1) store_sent) = Inr iv \<and>
         inv_id iv = ''u'' \<and> status iv = ''paid'' \<and> paid_at iv = Some (example_now + 1) \<and>
         payment_method iv = Some ''credit_card'') \<and>
   select_invoice ''u'' (snd (mark_paid ''u'' ''credit_card'' (example_now + 1) store_sent)) =
     Some example_paid_row \<and>
   select_invoice ''u'' store_paid = Some example_paid_row \<and>
   mark_paid ''u'' ''credit_card'' (example_now + 2) store_paid =
     (Inl (ValueError ''Invoice already paid''), store_paid)"
proof -
  have s: "status (example_row\<lparr>status := ''sent''\<rparr>) \<noteq> ''paid''" by simp
  have p: "status example_paid_row = ''paid''" by (simp add: example_paid_row_def)
  have e: "example_row\<lparr>status := ''sent'', status := ''paid'', paid_at := Some (example_now + 1),
      payment_method := Some ''credit_card''\<rparr> = example_paid_row"
    by (simp add: example_paid_row_def)
  from mark_paid_sets_fields [OF select_store_sent, of "''credit_card''" "example_now + 1"] s e
  have a: "(\<exists>iv. fst (mark_paid ''u'' ''credit_card'' (example_now + 1) store_sent) = Inr iv \<and>
         inv_id iv = ''u'' \<and> status iv = ''paid'' \<and> paid_at iv = Some (example_now + 1) \<and>
         payment_method iv = Some ''credit_card'') \<and>
     select_invoice ''u'' (snd (mark_paid ''u'' ''credit_card'' (example_now + 1) store_sent)) =
     Some example_paid_row"
    by auto
  from mark_paid_sets_fields [OF select_store_paid, of "''credit_card''" "example_now + 2"] p
  have b: "mark_paid ''u'' ''credit_card'' (example_now + 2) store_paid =
     (Inl (ValueError ''Invoice already paid''), store_paid)"
    by blast
  from a b select_store_sent select_store_paid show ?thesis by blast
qed

text \<open>
  C4. On an invoice that is not paid (draft, sent or overdue) \<^verbatim>\<open>send_invoice\<close> returns
  the invoice with status \<open>sent\<close>, stores that status and changes nothing else. It raises
  \<^verbatim>\<open>ValueError\<close> (\<^verbatim>\<open>"Cannot send a paid invoice"\<close>, the specification's
  InvalidTransitionError) exactly when the invoice is paid, and then the store is unchanged.
\<close>

theorem send_invoice_transitions:
  assumes "select_invoice i d = Some row"
  shows "(status row \<noteq> ''paid'' \<longrightarrow>
            (\<exists>iv. fst (send_invoice i d) = Inr iv \<and> inv_id iv = i \<and> status iv = ''sent'') \<and>
            (\<forall>j. select_invoice j (snd (send_invoice i d)) =
                  (if j = i then Some (row\<lparr>status := ''sent''\<rparr>) else select_invoice j d)) \<and>
            tbl_line_items (snd (send_invoice i d)) = tbl_line_items d) \<and>
         (status row = ''paid'' \<longrightarrow>
            send_invoice i d = (Inl (ValueError ''Cannot send a paid invoice''), d)) \<and>
         ((\<exists>m. fst (send_invoice i d) = Inl (ValueError m)) \<longleftrightarrow> status row = ''paid'')"
proof -
  let ?f = "\<lambda>r::invoice_row. r\<lparr>status := ''sent''\<rparr>"
  let ?d' = "update_status i ?f d"
  have id: "inv_id row = i" using assms by (rule select_some_id)
  have look: "\<And>j. select_invoice j ?d' =
      (if j = i then Some (?f row) else select_invoice j d)"
    using assms by (simp add: select_update_lookup)
  have paid: "send_invoice i d = (Inl (ValueError ''Cannot send a paid invoice''), d)"
    if "status row = ''paid''"
    using that assms by (simp add: send_invoice_def)
  have ok: "send_invoice i d = (get_invoice i ?d', ?d')" if "status row \<noteq> ''paid''"
    using that assms by (simp add: send_invoice_def Let_def)
  have res: "\<exists>iv. get_invoice i ?d' = Inr iv \<and> inv_id iv = i \<and> status iv = ''sent''"
  proof -
    have s: "select_invoice i ?d' = Some (?f row)" by (simp add: look)
    then obtain iv where g: "get_invoice i ?d' = Inr iv" using get_invoice_found by blast
    from get_invoice_status [OF g s] id have "inv_id iv = i \<and> status iv = ''sent''" by simp
    with g show ?thesis by blast
  qed
  show ?thesis
  proof (cases "status row = ''paid''")
    case True
    then show ?thesis using paid by simp
  next
    case False
    then show ?thesis using ok res look by auto
  qed
qed

theorem send_invoice_transitions_witness:
  "select_invoice ''u'' store_draft = Some example_row \<and>
   (\<exists>iv. fst (send_invoice ''u'' store_draft) = Inr iv \<and> inv_id iv = ''u'' \<and> status iv = ''sent'') \<and>
   select_invoice ''u'' (snd (send_invoice ''u'' store_draft)) = Some (example_row\<lparr>status := ''sent''\<rparr>) \<and>
   select_invoice ''u'' store_paid = Some example_paid_row \<and>
   send_invoice ''u'' store_paid = (Inl (ValueError ''Cannot send a paid invoice''), store_paid)"
proof -
  have s: "status example_row \<noteq> ''paid''" by (simp add: example_row_def)
  have p: "status example_paid_row = ''paid''" by (simp add: example_paid_row_def)
  from send_invoice_transitions [OF select_store_draft] s
  have a: "(\<exists>iv. fst (send_invoice ''u'' store_draft) = Inr iv \<and> inv_id iv = ''u'' \<and> status iv = ''sent'') \<and>
   select_invoice ''u'' (snd (send_invoice ''u'' store_draft)) = Some (example_row\<lparr>status := ''sent''\<rparr>)"
    by auto
  from send_invoice_transitions [OF select_store_paid] p
  have b: "send_invoice ''u'' store_paid = (Inl (ValueError ''Cannot send a paid invoice''), store_paid)"
    by blast
  from a b select_store_draft select_store_paid show ?thesis by blast
qed

text \<open>
  C5. \<^verbatim>\<open>create_invoice\<close> raises \<^verbatim>\<open>ValueError\<close> (the specification's ValidationError)
  exactly when the item list is empty, the tax rate is below 0 or above 1, or the
  discount is below 0 or above 1; and whenever it raises, whatever the exception, the
  store is unchanged.
\<close>

theorem create_invoice_validation:
  "((\<exists>m. fst (create_invoice now year uuid4 cname cemail items tax due_days disc nts cur d) =
          Inl (ValueError m)) \<longleftrightarrow>
      (items = [] \<or> tax < 0 \<or> 1 < tax \<or> disc < 0 \<or> 1 < disc)) \<and>
   (\<forall>e. fst (create_invoice now year uuid4 cname cemail items tax due_days disc nts cur d) = Inl e \<longrightarrow>
      snd (create_invoice now year uuid4 cname cemail items tax due_days disc nts cur d) = d)"
proof -
  let ?c = "create_invoice now year uuid4 cname cemail items tax due_days disc nts cur d"
  have bad: "\<exists>m. fst ?c = Inl (ValueError m)"
    if "items = [] \<or> tax < 0 \<or> 1 < tax \<or> disc < 0 \<or> 1 < disc"
    using that by (auto simp: create_invoice_def)
  have good: "\<not> (\<exists>m. fst ?c = Inl (ValueError m))"
    if "\<not> (items = [] \<or> tax < 0 \<or> 1 < tax \<or> disc < 0 \<or> 1 < disc)"
    using that
    by (auto simp: create_invoice_def Let_def split: sum.splits
        dest: insert_line_items_error insert_invoice_error add_days_error)
  have rollback: "snd ?c = d" if "fst ?c = Inl e" for e
    using that by (auto simp: create_invoice_def Let_def split: sum.splits if_splits)
  show ?thesis using bad good rollback by blast
qed

lemma minus_tenth_negative: "- fl (1 / 10) < 0"
  by code_simp

theorem create_invoice_validation_witness:
  "(\<exists>m. fst (create_invoice example_now 2024 example_uuid4 ''NoCo'' ''no@no.com'' []
              0 30 0 [] ''USD'' store_draft) = Inl (ValueError m)) \<and>
   snd (create_invoice example_now 2024 example_uuid4 ''NoCo'' ''no@no.com'' []
              0 30 0 [] ''USD'' store_draft) = store_draft \<and>
   (\<exists>m. fst (create_invoice example_now 2024 example_uuid4 ''TaxErr'' ''t@t.com'' example_items
              (3 / 2) 30 0 [] ''USD'' store_draft) = Inl (ValueError m)) \<and>
   (\<exists>m. fst (create_invoice example_now 2024 example_uuid4 ''DisErr'' ''d@d.com'' example_items
              0 30 (- fl (1 / 10)) [] ''USD'' store_draft) = Inl (ValueError m)) \<and>
   \<not> (\<exists>m. fst (create_invoice example_now 2024 example_uuid4 ''Acme Corp'' ''billing@acme.com''
              example_items 0 30 1 [] ''USD'' init_db) = Inl (ValueError m))"
proof -
  have a: "\<exists>m. fst (create_invoice example_now 2024 example_uuid4 ''NoCo'' ''no@no.com'' []
              0 30 0 [] ''USD'' store_draft) = Inl (ValueError m)"
    using create_invoice_validation [of example_now 2024 example_uuid4 "''NoCo''" "''no@no.com''" "[]"
        0 30 0 "[]" "''USD''" store_draft] by simp
  then have b: "snd (create_invoice example_now 2024 example_uuid4 ''NoCo'' ''no@no.com'' []
              0 30 0 [] ''USD'' store_draft) = store_draft"
    using create_invoice_validation [of example_now 2024 example_uuid4 "''NoCo''" "''no@no.com''" "[]"
        0 30 0 "[]" "''USD''" store_draft] by blast
  have c: "\<exists>m. fst (create_invoice example_now 2024 example_uuid4 ''TaxErr'' ''t@t.com'' example_items
              (3 / 2) 30 0 [] ''USD'' store_draft) = Inl (ValueError m)"
    using create_invoice_validation [of example_now 2024 example_uuid4 "''TaxErr''" "''t@t.com''"
        example_items "3 / 2" 30 0 "[]" "''USD''" store_draft] by simp
  have e: "\<exists>m. fst (create_invoice example_now 2024 example_uuid4 ''DisErr'' ''d@d.com'' example_items
              0 30 (- fl (1 / 10)) [] ''USD'' store_draft) = Inl (ValueError m)"
    using create_invoice_validation [of example_now 2024 example_uuid4 "''DisErr''" "''d@d.com''"
        example_items 0 30 "- fl (1 / 10)" "[]" "''USD''" store_draft] minus_tenth_negative
    by blast
  have f: "\<not> (\<exists>m. fst (create_invoice example_now 2024 example_uuid4 ''Acme Corp'' ''billing@acme.com''
              example_items 0 30 1 [] ''USD'' init_db) = Inl (ValueError m))"
    using create_invoice_validation [of example_now 2024 example_uuid4 "''Acme Corp''"
        "''billing@acme.com''" example_items 0 30 1 "[]" "''USD''" init_db]
    by (simp add: example_items_def)
  from a b c e f show ?thesis by blast
qed

section \<open>Invariant of the paid fields\<close>

lemma find_append_first:
  "find P (xs @ ys) = (case find P xs of None \<Rightarrow> find P ys | Some x \<Rightarrow> Some x)"
  by (induction xs) auto

lemma paid_row_kept_update:
  assumes "store_ok d" and "r \<in> set (tbl_invoices d)" and "status r = ''paid''"
    and "select_invoice i d = Some row" and "status row \<noteq> ''paid''"
  shows "r \<in> set (tbl_invoices (update_status i f d))"
proof -
  from assms(1) have dist: "distinct (map inv_id (tbl_invoices d))" by (simp add: store_ok_def)
  have ne: "inv_id r \<noteq> i"
  proof
    assume "inv_id r = i"
    with select_unique [OF dist assms(2)] assms(4) have "r = row" by simp
    with assms(3,5) show False by simp
  qed
  let ?g = "\<lambda>x. if inv_id x = i then f x else x"
  from ne have "r = ?g r" by simp
  then have "r \<in> ?g ` set (tbl_invoices d)" using assms(2) by (rule image_eqI)
  then show ?thesis by (simp add: update_status_def)
qed

lemma paid_row_kept_send:
  assumes "store_ok d" and "r \<in> set (tbl_invoices d)" and "status r = ''paid''"
  shows "r \<in> set (tbl_invoices (snd (send_invoice i d)))"
proof (cases "select_invoice i d")
  case None
  with assms(2) show ?thesis by (simp add: send_invoice_def)
next
  case (Some row)
  show ?thesis
  proof (cases "status row = ''paid''")
    case True
    with Some assms(2) show ?thesis by (simp add: send_invoice_def)
  next
    case False
    from paid_row_kept_update [OF assms Some False] Some False
    show ?thesis by (simp add: send_invoice_def Let_def)
  qed
qed

lemma paid_row_kept_paid:
  assumes "store_ok d" and "r \<in> set (tbl_invoices d)" and "status r = ''paid''"
  shows "r \<in> set (tbl_invoices (snd (mark_paid i pm now d)))"
proof (cases "select_invoice i d")
  case None
  with assms(2) show ?thesis by (simp add: mark_paid_def)
next
  case (Some row)
  show ?thesis
  proof (cases "status row = ''paid''")
    case True
    with Some assms(2) show ?thesis by (simp add: mark_paid_def)
  next
    case False
    from paid_row_kept_update [OF assms Some False] Some False
    show ?thesis by (simp add: mark_paid_def Let_def)
  qed
qed

lemma paid_row_kept_overdue:
  assumes "store_ok d" and "r \<in> set (tbl_invoices d)" and "status r = ''paid''"
  shows "r \<in> set (tbl_invoices (snd (mark_overdue today d)))"
proof -
  let ?g = "\<lambda>r. if status r = ''sent'' \<and> due_date r < today then r\<lparr>status := ''overdue''\<rparr> else r"
  from assms(1) have "distinct (map inv_id (tbl_invoices d))" by (simp add: store_ok_def)
  from mark_overdue_rows [OF this, of today]
  have rows: "tbl_invoices (snd (mark_overdue today d)) = map ?g (tbl_invoices d)" by simp
  from assms(3) have "r = ?g r" by simp
  then have "r \<in> ?g ` set (tbl_invoices d)" using assms(2) by (rule image_eqI)
  with rows show ?thesis by simp
qed

lemma paid_row_kept_create:
  assumes "r \<in> set (tbl_invoices d)"
  shows "r \<in> set (tbl_invoices
           (snd (create_invoice now year uuid4 cname cemail items tax due_days disc nts cur d)))"
proof -
  obtain res d' where c:
    "create_invoice now year uuid4 cname cemail items tax due_days disc nts cur d = (res, d')"
    by (cases "create_invoice now year uuid4 cname cemail items tax due_days disc nts cur d")
  from create_invoice_cases [OF c] assms have "r \<in> set (tbl_invoices d')" by auto
  with c show ?thesis by simp
qed

lemma fields_kept_send:
  assumes "select_invoice k d = Some r" and "select_invoice k (snd (send_invoice i d)) = Some r'"
  shows "paid_at r' = paid_at r \<and> payment_method r' = payment_method r"
proof (cases "select_invoice i d")
  case None
  with assms show ?thesis by (simp add: send_invoice_def)
next
  case (Some row)
  show ?thesis
  proof (cases "status row = ''paid''")
    case True
    with Some assms show ?thesis by (simp add: send_invoice_def)
  next
    case False
    with Some have "snd (send_invoice i d) = update_status i (\<lambda>r. r\<lparr>status := ''sent''\<rparr>) d"
      by (simp add: send_invoice_def Let_def)
    with assms Some show ?thesis
      by (auto simp: select_update_lookup split: if_splits)
  qed
qed

lemma fields_kept_overdue:
  assumes "store_ok d" and "select_invoice k d = Some r"
    and "select_invoice k (snd (mark_overdue today d)) = Some r'"
  shows "paid_at r' = paid_at r \<and> payment_method r' = payment_method r"
proof -
  let ?g = "\<lambda>r. if status r = ''sent'' \<and> due_date r < today then r\<lparr>status := ''overdue''\<rparr> else r"
  from assms(1) have "distinct (map inv_id (tbl_invoices d))" by (simp add: store_ok_def)
  from mark_overdue_rows [OF this, of today]
  have rows: "tbl_invoices (snd (mark_overdue today d)) = map ?g (tbl_invoices d)" by simp
  have "select_invoice k (snd (mark_overdue today d)) = map_option ?g (select_invoice k d)"
    unfolding select_invoice_def rows
    by (rule find_map_keep) simp
  with assms(2,3) have "r' = ?g r" by simp
  then show ?thesis by simp
qed

lemma fields_kept_create:
  assumes "select_invoice k d = Some r"
    and "select_invoice k
           (snd (create_invoice now year uuid4 cname cemail items tax due_days disc nts cur d)) = Some r'"
  shows "r' = r"
proof -
  obtain res d' where c:
    "create_invoice now year uuid4 cname cemail items tax due_days disc nts cur d = (res, d')"
    by (cases "create_invoice now year uuid4 cname cemail items tax due_days disc nts cur d")
  from create_invoice_cases [OF c] have "select_invoice k d' = Some r"
    using assms(1) by (auto simp: select_invoice_def find_append_first)
  with c assms(2) show ?thesis by simp
qed

lemma created_is_draft:
  assumes "create_invoice now year uuid4 cname cemail items tax due_days disc nts cur d = (Inr iv, d')"
  shows "status iv = ''draft'' \<and> paid_at iv = None \<and> payment_method iv = None"
  using create_invoice_cases [OF assms] by (auto simp: row_to_invoice_def)

text \<open>
  C6. In every store the operations can produce, \<^verbatim>\<open>paid_at\<close> and \<^verbatim>\<open>payment_method\<close>
  are both set on a paid invoice and both null on any other, and the same holds after
  each further operation. \<^verbatim>\<open>create_invoice\<close> returns a draft with both fields null;
  \<^verbatim>\<open>create_invoice\<close>, \<^verbatim>\<open>send_invoice\<close> and \<^verbatim>\<open>mark_overdue\<close> never change the two fields
  of an invoice, so only \<^verbatim>\<open>mark_paid\<close> sets them; and no operation changes a paid row.
\<close>

theorem paid_fields_invariant:
  assumes "reachable d"
  shows "(\<forall>r \<in> set (tbl_invoices d). paid_fields_ok r) \<and>
         (\<forall>r \<in> set (tbl_invoices
              (snd (create_invoice now year uuid4 cname cemail items tax due_days disc nts cur d))) \<union>
            set (tbl_invoices (snd (send_invoice i d))) \<union>
            set (tbl_invoices (snd (mark_paid j pm t d))) \<union>
            set (tbl_invoices (snd (mark_overdue today d))). paid_fields_ok r) \<and>
         (\<forall>iv d'. create_invoice now year uuid4 cname cemail items tax due_days disc nts cur d =
              (Inr iv, d') \<longrightarrow>
            status iv = ''draft'' \<and> paid_at iv = None \<and> payment_method iv = None) \<and>
         (\<forall>r \<in> set (tbl_invoices d). status r = ''paid'' \<longrightarrow>
            r \<in> set (tbl_invoices
              (snd (create_invoice now year uuid4 cname cemail items tax due_days disc nts cur d))) \<and>
            r \<in> set (tbl_invoices (snd (send_invoice i d))) \<and>
            r \<in> set (tbl_invoices (snd (mark_paid j pm t d))) \<and>
            r \<in> set (tbl_invoices (snd (mark_overdue today d)))) \<and>
         (\<forall>k r r'. select_invoice k d = Some r \<longrightarrow>
            (select_invoice k
               (snd (create_invoice now year uuid4 cname cemail items tax due_days disc nts cur d)) =
               Some r' \<or>
             select_invoice k (snd (send_invoice i d)) = Some r' \<or>
             select_invoice k (snd (mark_overdue today d)) = Some r') \<longrightarrow>
            paid_at r' = paid_at r \<and> payment_method r' = payment_method r)"
proof -
  from assms have ok: "store_ok d" by (rule reachable_store_ok)
  have a: "\<forall>r \<in> set (tbl_invoices d). paid_fields_ok r"
    using ok by (simp add: store_ok_def list_all_iff)
  have b: "\<forall>r \<in> set (tbl_invoices
              (snd (create_invoice now year uuid4 cname cemail items tax due_days disc nts cur d))) \<union>
            set (tbl_invoices (snd (send_invoice i d))) \<union>
            set (tbl_invoices (snd (mark_paid j pm t d))) \<union>
            set (tbl_invoices (snd (mark_overdue today d))). paid_fields_ok r"
  proof -
    have "list_all paid_fields_ok (tbl_invoices
        (snd (create_invoice now year uuid4 cname cemail items tax due_days disc nts cur d)))"
      using store_ok_create [OF ok, of now year uuid4 cname cemail items tax due_days disc nts cur]
      by (simp only: store_ok_def)
    moreover have "list_all paid_fields_ok (tbl_invoices (snd (send_invoice i d)))"
      using store_ok_send [OF ok, of i] by (simp only: store_ok_def)
    moreover have "list_all paid_fields_ok (tbl_invoices (snd (mark_paid j pm t d)))"
      using store_ok_paid [OF ok, of j pm t] by (simp only: store_ok_def)
    moreover have "list_all paid_fields_ok (tbl_invoices (snd (mark_overdue today d)))"
      using store_ok_overdue [OF ok, of today] by (simp only: store_ok_def)
    ultimately show ?thesis
      unfolding list_all_iff by blast
  qed
  have c: "\<forall>iv d'. create_invoice now year uuid4 cname cemail items tax due_days disc nts cur d =
              (Inr iv, d') \<longrightarrow>
            status iv = ''draft'' \<and> paid_at iv = None \<and> payment_method iv = None"
    by (intro allI impI) (rule created_is_draft)
  have e: "\<forall>r \<in> set (tbl_invoices d). status r = ''paid'' \<longrightarrow>
            r \<in> set (tbl_invoices
              (snd (create_invoice now year uuid4 cname cemail items tax due_days disc nts cur d))) \<and>
            r \<in> set (tbl_invoices (snd (send_invoice i d))) \<and>
            r \<in> set (tbl_invoices (snd (mark_paid j pm t d))) \<and>
            r \<in> set (tbl_invoices (snd (mark_overdue today d)))"
  proof (intro ballI impI conjI)
    fix r assume r: "r \<in> set (tbl_invoices d)" "status r = ''paid''"
    show "r \<in> set (tbl_invoices
              (snd (create_invoice now year uuid4 cname cemail items tax due_days disc nts cur d)))"
      using r(1) by (rule paid_row_kept_create)
    show "r \<in> set (tbl_invoices (snd (send_invoice i d)))"
      using ok r by (rule paid_row_kept_send)
    show "r \<in> set (tbl_invoices (snd (mark_paid j pm t d)))"
      using ok r by (rule paid_row_kept_paid)
    show "r \<in> set (tbl_invoices (snd (mark_overdue today d)))"
      using ok r by (rule paid_row_kept_overdue)
  qed
  have f: "\<forall>k r r'. select_invoice k d = Some r \<longrightarrow>
            (select_invoice k
               (snd (create_invoice now year uuid4 cname cemail items tax due_days disc nts cur d)) =
               Some r' \<or>
             select_invoice k (snd (send_invoice i d)) = Some r' \<or>
             select_invoice k (snd (mark_overdue today d)) = Some r') \<longrightarrow>
            paid_at r' = paid_at r \<and> payment_method r' = payment_method r"
  proof (intro allI impI)
    fix k r r'
    assume s: "select_invoice k d = Some r"
    assume "select_invoice k
               (snd (create_invoice now year uuid4 cname cemail items tax due_days disc nts cur d)) =
               Some r' \<or>
             select_invoice k (snd (send_invoice i d)) = Some r' \<or>
             select_invoice k (snd (mark_overdue today d)) = Some r'"
    then show "paid_at r' = paid_at r \<and> payment_method r' = payment_method r"
    proof (elim disjE)
      assume "select_invoice k
               (snd (create_invoice now year uuid4 cname cemail items tax due_days disc nts cur d)) =
               Some r'"
      with s have "r' = r" by (rule fields_kept_create)
      then show ?thesis by simp
    next
      assume "select_invoice k (snd (send_invoice i d)) = Some r'"
      with s show ?thesis by (rule fields_kept_send)
    next
      assume "select_invoice k (snd (mark_overdue today d)) = Some r'"
      with ok s show ?thesis by (rule fields_kept_overdue)
    qed
  qed
  show ?thesis
    apply (intro conjI)
        apply (rule a)
       apply (rule b)
      apply (rule c)
     apply (rule e)
    apply (rule f)
    done
qed

lemma example_created:
  "create_invoice example_now 2024 example_uuid4 ''Acme Corp'' ''billing@acme.com'' example_items
     (fl (1 / 10)) 30 (fl (5 / 100)) [] ''USD'' init_db = (Inr example_invoice, store_draft)"
  by code_simp

lemma example_sent: "snd (send_invoice ''u'' store_draft) = store_sent"
  by code_simp

lemma example_paid:
  "snd (mark_paid ''u'' ''credit_card'' (example_now + 1) store_sent) = store_paid"
  by code_simp

lemma reachable_store_draft: "reachable store_draft"
  using r_init example_created by (rule r_create)

lemma reachable_store_sent: "reachable store_sent"
proof -
  have "send_invoice ''u'' store_draft = (fst (send_invoice ''u'' store_draft), store_sent)"
    using example_sent by (simp add: prod_eq_iff)
  with reachable_store_draft show ?thesis by (rule r_send)
qed

lemma reachable_store_paid: "reachable store_paid"
proof -
  have "mark_paid ''u'' ''credit_card'' (example_now + 1) store_sent =
      (fst (mark_paid ''u'' ''credit_card'' (example_now + 1) store_sent), store_paid)"
    using example_paid by (simp add: prod_eq_iff)
  with reachable_store_sent show ?thesis by (rule r_paid)
qed

theorem paid_fields_invariant_witness:
  "reachable store_paid \<and> reachable store_sent \<and>
   status example_paid_row = ''paid'' \<and> paid_at example_paid_row = Some (example_now + 1) \<and>
   paid_fields_ok example_paid_row \<and>
   paid_fields_ok (example_row\<lparr>status := ''sent''\<rparr>) \<and>
   example_paid_row \<in> set (tbl_invoices (snd (send_invoice ''u'' store_paid))) \<and>
   example_paid_row \<in> set (tbl_invoices (snd (mark_overdue 739000 store_paid)))"
proof -
  have m: "example_paid_row \<in> set (tbl_invoices store_paid)"
    by (simp add: store_paid_def)
  have n: "example_row\<lparr>status := ''sent''\<rparr> \<in> set (tbl_invoices store_sent)"
    by (simp add: store_sent_def)
  have p: "status example_paid_row = ''paid''" "paid_at example_paid_row = Some (example_now + 1)"
    by (simp_all add: example_paid_row_def)
  have a: "paid_fields_ok example_paid_row"
    by (rule paid_fields_invariant [OF reachable_store_paid, THEN conjunct1, THEN bspec, OF m])
  have b: "paid_fields_ok (example_row\<lparr>status := ''sent''\<rparr>)"
    by (rule paid_fields_invariant [OF reachable_store_sent, THEN conjunct1, THEN bspec, OF n])
  note k = paid_fields_invariant [OF reachable_store_paid, THEN conjunct2, THEN conjunct2,
      THEN conjunct2, THEN conjunct1, THEN bspec, OF m, THEN mp, OF p(1)]
  have c: "example_paid_row \<in> set (tbl_invoices (snd (send_invoice ''u'' store_paid)))"
    by (rule k [THEN conjunct2, THEN conjunct1])
  have e: "example_paid_row \<in> set (tbl_invoices (snd (mark_overdue 739000 store_paid)))"
    by (rule k [THEN conjunct2, THEN conjunct2, THEN conjunct2])
  from reachable_store_paid reachable_store_sent p a b c e show ?thesis by simp
qed

section \<open>Round trip\<close>






section \<open>Overdue fee and summary report\<close>

text \<open>
  C7. For an invoice that exists, \<^verbatim>\<open>calculate_overdue_fee\<close> returns 0 when the invoice is
  paid, whatever its due date; otherwise it returns the product of total, daily rate and
  the number of days from the due date to today (0 when that is negative), rounded to two
  decimal places, which is 0 when the due date is today or later.
\<close>

theorem overdue_fee:
  assumes "get_invoice i d = Inr iv"
  shows "(status iv = ''paid'' \<longrightarrow> calculate_overdue_fee i daily_rate today d = Inr 0) \<and>
         (status iv \<noteq> ''paid'' \<longrightarrow>
            calculate_overdue_fee i daily_rate today d =
              Inr (py_round (fmul (fmul (total iv) daily_rate)
                     (float_of_int (max 0 (today - due_date iv)))) 2)) \<and>
         (today \<le> due_date iv \<longrightarrow> calculate_overdue_fee i daily_rate today d = Inr 0)"
proof -
  have z: "max 0 (today - due_date iv) = 0" if "today \<le> due_date iv"
    using that by simp
  show ?thesis
    using assms by (simp add: calculate_overdue_fee_def Let_def z)
qed

lemma get_store_sent:
  "get_invoice ''u'' store_sent = Inr (row_to_invoice (example_row\<lparr>status := ''sent''\<rparr>) example_items)"
  unfolding get_invoice_def select_store_sent
  by (simp add: store_sent_def example_line_rows_def example_items_def)

lemma get_store_paid:
  "get_invoice ''u'' store_paid = Inr (row_to_invoice example_paid_row example_items)"
  unfolding get_invoice_def select_store_paid
  by (simp add: store_paid_def example_line_rows_def example_items_def)

lemma example_sent_total:
  "total (row_to_invoice (example_row\<lparr>status := ''sent''\<rparr>) example_items) = 1045 / 4"
proof -
  have "subtotal (row_to_invoice (example_row\<lparr>status := ''sent''\<rparr>) example_items) = 250 \<and>
      discount_amount (row_to_invoice (example_row\<lparr>status := ''sent''\<rparr>) example_items) = 25 / 2 \<and>
      taxable_amount (row_to_invoice (example_row\<lparr>status := ''sent''\<rparr>) example_items) = 475 / 2 \<and>
      tax_amount (row_to_invoice (example_row\<lparr>status := ''sent''\<rparr>) example_items) = 95 / 4 \<and>
      total (row_to_invoice (example_row\<lparr>status := ''sent''\<rparr>) example_items) = 1045 / 4"
    by (rule worked_example [where a = "\<lparr>description = ''Service A'', qty = 2, unit_price = 100\<rparr>"
          and b = "\<lparr>description = ''Service B'', qty = 1, unit_price = 50\<rparr>"])
      (simp_all add: row_to_invoice_def example_items_def example_row_def)
  then show ?thesis by simp
qed

lemma example_fee_value:
  "py_round (fmul (fmul (1045 / 4) (fl (1 / 1000))) (float_of_int 10)) 2 = fl (261 / 100)"
  by code_simp

lemma example_fee:
  "py_round (fmul (fmul (total (row_to_invoice (example_row\<lparr>status := ''sent''\<rparr>) example_items))
       (fl (1 / 1000))) (float_of_int 10)) 2 = fl (261 / 100)"
  by (simp only: example_sent_total example_fee_value)

theorem overdue_fee_witness:
  "calculate_overdue_fee ''u'' (fl (1 / 1000)) 738940 store_sent = Inr (fl (261 / 100)) \<and>
   calculate_overdue_fee ''u'' (fl (1 / 1000)) 738930 store_sent = Inr 0 \<and>
   calculate_overdue_fee ''u'' (fl (1 / 1000)) 738940 store_paid = Inr 0"
proof -
  have s: "status (row_to_invoice (example_row\<lparr>status := ''sent''\<rparr>) example_items) \<noteq> ''paid''"
    "due_date (row_to_invoice (example_row\<lparr>status := ''sent''\<rparr>) example_items) = 738930"
    by (simp_all add: row_to_invoice_def example_row_def)
  have p: "status (row_to_invoice example_paid_row example_items) = ''paid''"
    by (simp add: row_to_invoice_def example_paid_row_def)
  have a: "calculate_overdue_fee ''u'' (fl (1 / 1000)) 738940 store_sent = Inr (fl (261 / 100))"
    using overdue_fee [OF get_store_sent, of "fl (1 / 1000)" 738940] s example_fee by simp
  have b: "calculate_overdue_fee ''u'' (fl (1 / 1000)) 738930 store_sent = Inr 0"
    using overdue_fee [OF get_store_sent, of "fl (1 / 1000)" 738930] s by simp
  have c: "calculate_overdue_fee ''u'' (fl (1 / 1000)) 738940 store_paid = Inr 0"
    using overdue_fee [OF get_store_paid, of "fl (1 / 1000)" 738940] p by simp
  from a b c show ?thesis by simp
qed






section \<open>Listing invoices\<close>





















end
